theory Spec2Isabelle
  imports Complex_Main "HOL-Library.Word"
begin

section \<open>VoxDeck content script: audio-reactive visualizer and recognition session\<close>

text \<open>
  The development embeds the content script of the VoxDeck browser extension
  (the part of \<^verbatim>\<open>popup.js\<close> from \<^verbatim>\<open>// Global variables\<close> to the message listener):
  the per-frame function \<^verbatim>\<open>animate\<close>, \<^verbatim>\<open>initAudio\<close>, \<^verbatim>\<open>initializeRecognition\<close> with
  the four handlers it installs, \<^verbatim>\<open>startRecognition\<close>, \<^verbatim>\<open>stopRecognition\<close>,
  \<^verbatim>\<open>updateRecordButtonState\<close>, \<^verbatim>\<open>appendTranscript\<close>, and the listeners for clicks and
  messages.

  \<^item> JavaScript numbers are modelled as real numbers; \<^verbatim>\<open>Math.pow(x, 1.2)\<close> on a
    non-negative \<open>x\<close> is \<open>x powr 1.2\<close>.
  \<^item> Module-level variables are the fields of one state record; the parts of the browser
    the script talks to (the DOM nodes it queries, the timer queue, the recognition
    engines it constructed, the suspended \<^verbatim>\<open>async\<close> calls) are further fields.
  \<^item> The script runs on the event loop: each event runs one piece of code to completion. An
    \<^verbatim>\<open>async\<close> function that reaches an \<^verbatim>\<open>await\<close> on a browser promise
    (\<^verbatim>\<open>getUserMedia\<close>, \<^verbatim>\<open>audioContext.resume()\<close>) is suspended there and continues as a
    later event, after whatever events arrive in between.
  \<^item> Logging, styling, rendering and the construction of the Three.js scene are left out;
    \<^verbatim>\<open>initThreeJS\<close> is taken to succeed.
\<close>

subsection \<open>Data\<close>

text \<open>The Three.js mesh \<^verbatim>\<open>visualizer\<close>: shader uniforms, rotation and scale.\<close>

datatype color = Hex nat | HSL real real real

record mesh =
  u_time :: real
  u_pulseIntensity :: real
  u_baseColor :: color
  rotation_x :: real
  rotation_y :: real
  scale_x :: real
  scale_y :: real
  scale_z :: real

text \<open>Children of \<^verbatim>\<open>#voxdeck-text\<close>: \<^verbatim>\<open>div.final-text\<close> and \<^verbatim>\<open>div.interim-text\<close> with their text.\<close>

datatype node = FinalText string | InterimText string

text \<open>
  The panel \<^verbatim>\<open>#voxdeck-container\<close>: whether \<^verbatim>\<open>#voxdeck-record-button\<close> carries the class
  \<^verbatim>\<open>recording\<close>, and the children of \<^verbatim>\<open>#voxdeck-text\<close> in document order.
\<close>

record panel =
  recording :: bool
  children :: "node list"

text \<open>
  The last call the script made on a recognition engine it constructed:
  \<^verbatim>\<open>new webkitSpeechRecognition()\<close>, \<^verbatim>\<open>start()\<close> or \<^verbatim>\<open>stop()\<close>.
\<close>

datatype engine_status = Fresh | Started | Stopped

text \<open>
  An \<^verbatim>\<open>async\<close> function suspended at an \<^verbatim>\<open>await\<close>:
  \<^item> \<open>InitAwaitAudio\<close>: the record-button click handler inside \<^verbatim>\<open>initializeRecognition\<close>, at
    \<^verbatim>\<open>await initAudio()\<close> (itself waiting for \<^verbatim>\<open>getUserMedia\<close>);
  \<^item> \<open>StartAwaitAudio\<close>: \<^verbatim>\<open>startRecognition\<close> at \<^verbatim>\<open>await initAudio()\<close>;
  \<^item> \<open>StartAwaitResume\<close>: \<^verbatim>\<open>startRecognition\<close> at \<^verbatim>\<open>await audioContext.resume()\<close>.
\<close>

datatype task = InitAwaitAudio | StartAwaitAudio | StartAwaitResume

record state =
  isListening :: bool
  restartTimeout :: "nat option"
  recognition :: "nat option"
  audioContext :: bool
  audioSource :: bool
  analyser :: bool
  dataArray :: "8 word list"
  visualizer :: "mesh option"
  container :: "panel option"
  engines :: "engine_status list"
  timers :: "(nat \<times> nat) list"
  next_timer :: nat
  tasks :: "task list"

text \<open>
  \<open>recognition\<close> holds the index in \<open>engines\<close> of the engine the variable refers to;
  \<open>audioContext\<close>, \<open>audioSource\<close> and \<open>analyser\<close> say whether the variable is set;
  \<open>timers\<close> are the pending \<^verbatim>\<open>setTimeout\<close> calls as (handle, delay in ms), all of them with
  the restart callback of \<^verbatim>\<open>recognition.onend\<close>.
\<close>

text \<open>
  What the browser answers during one run-to-completion step of the script:
  whether \<^verbatim>\<open>audioContext.state === 'suspended'\<close>, whether \<^verbatim>\<open>new AudioContext()\<close> throws,
  whether \<^verbatim>\<open>recognition.start()\<close> throws.
\<close>

record env =
  ctx_suspended :: bool
  ctx_fails :: bool
  start_throws :: bool

definition RESTART_DELAY :: nat where
  "RESTART_DELAY = 300"

subsection \<open>The animation frame\<close>

definition normalize :: "8 word \<Rightarrow> real" where
  "normalize b = real (unat b) / 255"

text \<open>The loop over \<^verbatim>\<open>dataArray\<close>, from index \<open>i\<close>, with the three running sums.\<close>

fun band_sums :: "nat \<Rightarrow> nat \<Rightarrow> nat \<Rightarrow> 8 word list \<Rightarrow> real \<times> real \<times> real \<Rightarrow> real \<times> real \<times> real" where
  "band_sums bassRange midRange i [] acc = acc"
| "band_sums bassRange midRange i (b # bs) (bassSum, midSum, trebleSum) =
     (let v = normalize b in
      if i < bassRange then band_sums bassRange midRange (Suc i) bs (bassSum + v, midSum, trebleSum)
      else if i < midRange then band_sums bassRange midRange (Suc i) bs (bassSum, midSum + v, trebleSum)
      else band_sums bassRange midRange (Suc i) bs (bassSum, midSum, trebleSum + v))"

definition bassRange :: "8 word list \<Rightarrow> nat" where
  "bassRange d = nat \<lfloor>real (length d) * 0.1\<rfloor>"

definition midRange :: "8 word list \<Rightarrow> nat" where
  "midRange d = nat \<lfloor>real (length d) * 0.4\<rfloor>"

text \<open>\<^verbatim>\<open>bassAvg\<close>, \<^verbatim>\<open>midAvg\<close> and \<^verbatim>\<open>trebleAvg\<close> of one frame.\<close>

definition bandAverages :: "8 word list \<Rightarrow> real \<times> real \<times> real" where
  "bandAverages d =
     (case band_sums (bassRange d) (midRange d) 0 d (0, 0, 0) of
        (bassSum, midSum, trebleSum) \<Rightarrow>
          ((bassSum / real (bassRange d)) powr 1.2 * 1.2,
           (midSum / real (midRange d - bassRange d)) * 0.8,
           (trebleSum / real (length d - midRange d)) * 0.7))"

definition bassAvg :: "8 word list \<Rightarrow> real" where
  "bassAvg d = fst (bandAverages d)"

definition midAvg :: "8 word list \<Rightarrow> real" where
  "midAvg d = fst (snd (bandAverages d))"

definition trebleAvg :: "8 word list \<Rightarrow> real" where
  "trebleAvg d = snd (snd (bandAverages d))"

definition targetPulse :: "8 word list \<Rightarrow> real" where
  "targetPulse d = (bassAvg d) powr 1.2 * 3.0 + midAvg d * 1.2"

definition targetRotationSpeed :: "8 word list \<Rightarrow> real" where
  "targetRotationSpeed d = 0.001 + (bassAvg d * 0.015 + midAvg d * 0.008)"

definition targetScale :: "8 word list \<Rightarrow> real" where
  "targetScale d = 1 + (bassAvg d * 0.3 + midAvg d * 0.15)"

text \<open>The body of the \<^verbatim>\<open>try\<close> block of \<^verbatim>\<open>animate\<close> after the buffer was refreshed.\<close>

definition update_visualizer :: "8 word list \<Rightarrow> mesh \<Rightarrow> mesh" where
  "update_visualizer d v =
     (let currentPulse = u_pulseIntensity v;
          hue = 0.6 + (bassAvg d * 0.15 + midAvg d * 0.2 + trebleAvg d * 0.3) * 0.5;
          saturation = 0.7 + (bassAvg d * 0.3);
          lightness = 0.5 + (midAvg d * 0.25 + trebleAvg d * 0.15);
          currentScale = scale_x v;
          newScale = currentScale + (targetScale d - currentScale) * 0.15
      in v\<lparr>u_time := u_time v + 0.03,
            u_pulseIntensity := currentPulse + (targetPulse d - currentPulse) * 0.15,
            u_baseColor := HSL hue saturation lightness,
            rotation_x := rotation_x v + targetRotationSpeed d,
            rotation_y := rotation_y v + targetRotationSpeed d * 1.2,
            scale_x := newScale, scale_y := newScale, scale_z := newScale\<rparr>)"

text \<open>
  \<^verbatim>\<open>analyser.getByteFrequencyData(dataArray)\<close> overwrites the array in place with the
  magnitudes \<open>freq\<close> the analyser has; the array keeps its length.
\<close>

definition getByteFrequencyData :: "8 word list \<Rightarrow> 8 word list \<Rightarrow> 8 word list" where
  "getByteFrequencyData freq arr = take (length arr) freq @ drop (length freq) arr"

definition animate :: "8 word list \<Rightarrow> state \<Rightarrow> state" where
  "animate freq s =
     (case visualizer s of
        None \<Rightarrow> s
      | Some v \<Rightarrow>
          if analyser s \<and> isListening s then
            (let d = getByteFrequencyData freq (dataArray s)
             in s\<lparr>dataArray := d, visualizer := Some (update_visualizer d v)\<rparr>)
          else s)"


subsection \<open>DOM and timer operations\<close>

text \<open>
  \<^verbatim>\<open>updateRecordButtonState\<close>: \<^verbatim>\<open>classList.toggle('recording', isRecording)\<close> on the record button,
  when the button is in the document.
\<close>

definition updateRecordButtonState :: "bool \<Rightarrow> state \<Rightarrow> state" where
  "updateRecordButtonState isRecording s =
     (case container s of
        None \<Rightarrow> s
      | Some p \<Rightarrow> s\<lparr>container := Some (p\<lparr>recording := isRecording\<rparr>)\<rparr>)"

text \<open>Whether \<^verbatim>\<open>document.querySelector('#voxdeck-record-button.recording')\<close> finds an element.\<close>

definition recording_selected :: "state \<Rightarrow> bool" where
  "recording_selected s = (case container s of None \<Rightarrow> False | Some p \<Rightarrow> recording p)"

text \<open>
  The second half of \<^verbatim>\<open>appendTranscript\<close>: the first \<^verbatim>\<open>.interim-text\<close> child gets the new text
  where it stands; when there is none, a new one is appended.
\<close>

fun set_interim :: "string \<Rightarrow> node list \<Rightarrow> node list" where
  "set_interim t [] = [InterimText t]"
| "set_interim t (InterimText old # ns) = InterimText t # ns"
| "set_interim t (FinalText f # ns) = FinalText f # set_interim t ns"

definition appendTranscript :: "string \<Rightarrow> string \<Rightarrow> state \<Rightarrow> state" where
  "appendTranscript finalText interimText s =
     (case container s of
        None \<Rightarrow> s
      | Some p \<Rightarrow>
          (let ch = (if finalText \<noteq> [] then children p @ [FinalText finalText] else children p)
           in s\<lparr>container := Some (p\<lparr>children := set_interim interimText ch\<rparr>)\<rparr>))"

definition setTimeout :: "nat \<Rightarrow> state \<Rightarrow> nat \<times> state" where
  "setTimeout delay s =
     (next_timer s, s\<lparr>timers := timers s @ [(next_timer s, delay)], next_timer := Suc (next_timer s)\<rparr>)"

definition clearTimeout :: "nat option \<Rightarrow> state \<Rightarrow> state" where
  "clearTimeout h s =
     (case h of
        None \<Rightarrow> s
      | Some t \<Rightarrow> s\<lparr>timers := filter (\<lambda>(t', d). t' \<noteq> t) (timers s)\<rparr>)"

subsection \<open>Starting and stopping\<close>

text \<open>
  \<^verbatim>\<open>initAudio\<close> up to \<^verbatim>\<open>await getUserMedia\<close> (when \<^verbatim>\<open>new AudioContext()\<close> did not throw), and
  from there on; \<open>granted\<close> says whether the promise was fulfilled. With \<^verbatim>\<open>fftSize = 2048\<close> the
  analyser has 1024 frequency bins.
\<close>

definition initAudio_begin :: "state \<Rightarrow> state" where
  "initAudio_begin s = s\<lparr>audioContext := True, analyser := True, dataArray := replicate 1024 0\<rparr>"

definition initAudio_finish :: "bool \<Rightarrow> state \<Rightarrow> state \<times> bool" where
  "initAudio_finish granted s = (if granted then (s\<lparr>audioSource := True\<rparr>, True) else (s, False))"

text \<open>
  \<^verbatim>\<open>startRecognition\<close> in its three synchronous segments, last first: the call of
  \<^verbatim>\<open>recognition.start()\<close>; the test before \<^verbatim>\<open>await audioContext.resume()\<close>; the entry.
\<close>

definition startRecognition_start :: "env \<Rightarrow> state \<Rightarrow> state" where
  "startRecognition_start e s =
     (case recognition s of
        None \<Rightarrow> s
      | Some r \<Rightarrow>
          if start_throws e then s
          else updateRecordButtonState True
                 (s\<lparr>engines := (engines s)[r := Started], isListening := True\<rparr>))"

definition startRecognition_resume :: "env \<Rightarrow> state \<Rightarrow> state" where
  "startRecognition_resume e s =
     (if audioContext s \<and> ctx_suspended e then s\<lparr>tasks := tasks s @ [StartAwaitResume]\<rparr>
      else startRecognition_start e s)"

definition startRecognition :: "env \<Rightarrow> state \<Rightarrow> state" where
  "startRecognition e s =
     (if \<not> audioContext s \<or> ctx_suspended e then
        (if ctx_fails e then s
         else (initAudio_begin s)\<lparr>tasks := tasks s @ [StartAwaitAudio]\<rparr>)
      else startRecognition_resume e s)"

text \<open>
  \<^verbatim>\<open>recognition.stop()\<close> is recorded as the engine's status; \<^verbatim>\<open>audioContext.suspend()\<close>
  changes no variable of the script (it shows in what the browser answers later).
\<close>

definition stopRecognition :: "state \<Rightarrow> state" where
  "stopRecognition s =
     (let s1 = (case recognition s of
                  None \<Rightarrow> s
                | Some r \<Rightarrow> s\<lparr>engines := (engines s)[r := Stopped]\<rparr>)
      in updateRecordButtonState False (s1\<lparr>isListening := False\<rparr>))"

subsection \<open>The handlers of a recognition engine\<close>

definition onstart :: "state \<Rightarrow> state" where
  "onstart s = updateRecordButtonState True (s\<lparr>isListening := True\<rparr>)"

text \<open>The timer callback of \<^verbatim>\<open>onend\<close>.\<close>

definition restart_callback :: "env \<Rightarrow> state \<Rightarrow> state" where
  "restart_callback e s = (if recording_selected s then startRecognition e s else s)"

definition onend :: "state \<Rightarrow> state" where
  "onend s =
     (let s1 = updateRecordButtonState False (s\<lparr>isListening := False\<rparr>)
      in if recording_selected s1 then
           (case setTimeout RESTART_DELAY (clearTimeout (restartTimeout s1) s1) of
              (h, s2) \<Rightarrow> s2\<lparr>restartTimeout := Some h\<rparr>)
         else s1)"

definition onerror :: "state \<Rightarrow> state" where
  "onerror s = updateRecordButtonState False (s\<lparr>isListening := False\<rparr>)"

text \<open>
  The loop of \<^verbatim>\<open>onresult\<close> over \<^verbatim>\<open>event.results\<close> from \<^verbatim>\<open>event.resultIndex\<close> on, each
  result given as its first alternative's transcript and its \<^verbatim>\<open>isFinal\<close> flag.
\<close>

fun collect :: "(string \<times> bool) list \<Rightarrow> string \<times> string \<Rightarrow> string \<times> string" where
  "collect [] acc = acc"
| "collect ((transcript, isFinal) # rs) (finalTranscript, interimTranscript) =
     (if isFinal then collect rs (finalTranscript @ transcript, interimTranscript)
      else collect rs (finalTranscript, interimTranscript @ transcript))"

definition onresult :: "(string \<times> bool) list \<Rightarrow> state \<Rightarrow> state" where
  "onresult results s =
     (case collect results ([], []) of
        (finalTranscript, interimTranscript) \<Rightarrow>
          if finalTranscript \<noteq> [] \<or> interimTranscript \<noteq> []
          then appendTranscript finalTranscript interimTranscript s
          else s)"

subsection \<open>Initialising recognition\<close>

text \<open>\<^verbatim>\<open>if (recognition) { recognition.stop(); recognition = null; }\<close>\<close>

definition release_recognition :: "state \<Rightarrow> state" where
  "release_recognition s =
     (case recognition s of
        None \<Rightarrow> s
      | Some r \<Rightarrow> s\<lparr>engines := (engines s)[r := Stopped], recognition := None\<rparr>)"

text \<open>\<^verbatim>\<open>recognition = new webkitSpeechRecognition()\<close> and the four handlers.\<close>

definition new_recognition :: "state \<Rightarrow> state" where
  "new_recognition s = s\<lparr>recognition := Some (length (engines s)), engines := engines s @ [Fresh]\<rparr>"

text \<open>
  \<^verbatim>\<open>initializeRecognition\<close> up to \<^verbatim>\<open>await initAudio()\<close>, and from there on with its result
  (\<open>False\<close> when the \<^verbatim>\<open>Error\<close> it throws is caught).
\<close>

definition initializeRecognition_begin :: "env \<Rightarrow> state \<Rightarrow> state" where
  "initializeRecognition_begin e s =
     (let s1 = release_recognition s
      in if ctx_fails e then s1
         else (initAudio_begin s1)\<lparr>tasks := tasks s1 @ [InitAwaitAudio]\<rparr>)"

definition initializeRecognition_finish :: "bool \<Rightarrow> state \<Rightarrow> state \<times> bool" where
  "initializeRecognition_finish granted s =
     (case initAudio_finish granted s of
        (s1, audioInitialized) \<Rightarrow>
          if \<not> audioInitialized then (s1, False) else (new_recognition s1, True))"

subsection \<open>The page\<close>

text \<open>A new \<^verbatim>\<open>THREE.Mesh\<close> with the uniforms of \<^verbatim>\<open>initThreeJS\<close>.\<close>

definition new_mesh :: mesh where
  "new_mesh = \<lparr>u_time = 0, u_pulseIntensity = 0, u_baseColor = Hex 0x3498db,
               rotation_x = 0, rotation_y = 0, scale_x = 1, scale_y = 1, scale_z = 1\<rparr>"

definition createOrUpdateDisplay :: "state \<Rightarrow> state" where
  "createOrUpdateDisplay s =
     (case container s of
        Some p \<Rightarrow> s
      | None \<Rightarrow> s\<lparr>visualizer := Some new_mesh,
                  container := Some \<lparr>recording = False, children = []\<rparr>\<rparr>)"

text \<open>The variables as the script declares them, and the page once the panel is built.\<close>

definition script_start :: state where
  "script_start =
     \<lparr>isListening = False, restartTimeout = None, recognition = None, audioContext = False,
      audioSource = False, analyser = False, dataArray = [], visualizer = None, container = None,
      engines = [], timers = [], next_timer = 0, tasks = []\<rparr>"

definition loaded :: state where
  "loaded = createOrUpdateDisplay script_start"

text \<open>
  What the event loop delivers to the script: clicks on the record and the close button,
  the three messages of the background script, the settling of the promise the \<open>k\<close>-th
  suspended call waits for, the four signals of engine \<open>r\<close>, a timer that fires, an
  animation frame with the analyser's current magnitudes.
\<close>

datatype event =
    ClickRecord
  | ClickClose
  | MsgStartListening
  | MsgStopListening
  | MsgUpdateDisplay
  | Settle nat bool
  | EngineStart nat
  | EngineEnd nat
  | EngineError nat
  | EngineResult nat "(string \<times> bool) list"
  | TimerFire nat
  | AnimationFrame "8 word list"

definition continue_task :: "env \<Rightarrow> task \<Rightarrow> bool \<Rightarrow> state \<Rightarrow> state" where
  "continue_task e t fulfilled s =
     (case t of
        InitAwaitAudio \<Rightarrow>
          (case initializeRecognition_finish fulfilled s of
             (s1, initialized) \<Rightarrow> if initialized then startRecognition e s1 else s1)
      | StartAwaitAudio \<Rightarrow>
          (case initAudio_finish fulfilled s of
             (s1, audioInitialized) \<Rightarrow>
               if \<not> audioInitialized then s1 else startRecognition_resume e s1)
      | StartAwaitResume \<Rightarrow> (if fulfilled then startRecognition_start e s else s))"

fun step :: "env \<Rightarrow> event \<Rightarrow> state \<Rightarrow> state" where
  "step e ClickRecord s =
     (if container s = None then s
      else if isListening s then stopRecognition s
      else initializeRecognition_begin e s)"
| "step e ClickClose s =
     (if container s = None then s else (stopRecognition s)\<lparr>container := None\<rparr>)"
| "step e MsgStartListening s = startRecognition e s"
| "step e MsgStopListening s = stopRecognition s"
| "step e MsgUpdateDisplay s = createOrUpdateDisplay s"
| "step e (Settle k fulfilled) s =
     (if k < length (tasks s)
      then continue_task e (tasks s ! k) fulfilled
             (s\<lparr>tasks := take k (tasks s) @ drop (Suc k) (tasks s)\<rparr>)
      else s)"
| "step e (EngineStart r) s = (if r < length (engines s) then onstart s else s)"
| "step e (EngineEnd r) s = (if r < length (engines s) then onend s else s)"
| "step e (EngineError r) s = (if r < length (engines s) then onerror s else s)"
| "step e (EngineResult r results) s = (if r < length (engines s) then onresult results s else s)"
| "step e (TimerFire t) s =
     (if t \<in> fst ` set (timers s)
      then restart_callback e (s\<lparr>timers := filter (\<lambda>(t', d). t' \<noteq> t) (timers s)\<rparr>)
      else s)"
| "step e (AnimationFrame freq) s = animate freq s"

fun run :: "(env \<times> event) list \<Rightarrow> state \<Rightarrow> state" where
  "run [] s = s"
| "run ((e, ev) # evs) s = run evs (step e ev s)"


subsection \<open>Notions the properties are stated with\<close>

text \<open>The sum and the mean of the normalized magnitudes of a range of bins.\<close>

definition energy :: "8 word list \<Rightarrow> real" where
  "energy bs = sum_list (map normalize bs)"

definition average :: "8 word list \<Rightarrow> real" where
  "average bs = energy bs / real (length bs)"

text \<open>
  The band values as the specification words them: the first tenth of the bins is bass, the
  bins up to four tenths are mid, the rest is treble; each range is averaged; the bass
  average is raised to the power 1.2, the mid and treble averages are scaled by 0.8 and 0.7.
\<close>

definition spec_bandEnergy :: "8 word list \<Rightarrow> real \<times> real \<times> real" where
  "spec_bandEnergy d =
     (let b = length d div 10; m = (4 * length d) div 10
      in ((average (take b d)) powr 1.2,
          average (drop b (take m d)) * 0.8,
          average (drop m d) * 0.7))"

text \<open>Two buffers of 1024 bins: every bin at 255, every bin at 0.\<close>

definition loudest :: "8 word list" where
  "loudest = replicate 1024 255"

definition silence :: "8 word list" where
  "silence = replicate 1024 0"

text \<open>\<^verbatim>\<open>pulseIntensity.value\<close> of the visualizer, when there is one.\<close>

definition pulseIntensity :: "state \<Rightarrow> real option" where
  "pulseIntensity s = map_option u_pulseIntensity (visualizer s)"

text \<open>The engines the script constructed and has not called \<^verbatim>\<open>stop()\<close> on since.\<close>

definition live_engines :: "state \<Rightarrow> nat list" where
  "live_engines s = filter (\<lambda>r. engines s ! r \<noteq> Stopped) [0..<length (engines s)]"

text \<open>
  The transcript: the children of \<^verbatim>\<open>#voxdeck-text\<close>, the texts of its final nodes, the text
  of its interim node, and what the element shows (its \<^verbatim>\<open>textContent\<close>).
\<close>

definition transcript :: "state \<Rightarrow> node list option" where
  "transcript s = map_option children (container s)"

fun node_text :: "node \<Rightarrow> string" where
  "node_text (FinalText t) = t"
| "node_text (InterimText t) = t"

fun final_texts :: "node list \<Rightarrow> string list" where
  "final_texts [] = []"
| "final_texts (FinalText t # ns) = t # final_texts ns"
| "final_texts (InterimText t # ns) = final_texts ns"

fun interim_text :: "node list \<Rightarrow> string" where
  "interim_text [] = []"
| "interim_text (InterimText t # ns) = t"
| "interim_text (FinalText t # ns) = interim_text ns"

definition finalSegments :: "state \<Rightarrow> string list" where
  "finalSegments s = (case container s of None \<Rightarrow> [] | Some p \<Rightarrow> final_texts (children p))"

definition interimSegment :: "state \<Rightarrow> string" where
  "interimSegment s = (case container s of None \<Rightarrow> [] | Some p \<Rightarrow> interim_text (children p))"

definition transcript_view :: "state \<Rightarrow> string" where
  "transcript_view s =
     (case container s of None \<Rightarrow> [] | Some p \<Rightarrow> concat (map node_text (children p)))"

text \<open>
  Events that are no command of the user or of the background script and no continuation
  of one: engine signals other than "started", timers, animation frames.
\<close>

fun spontaneous :: "event \<Rightarrow> bool" where
  "spontaneous (EngineEnd r) = True"
| "spontaneous (EngineError r) = True"
| "spontaneous (EngineResult r results) = True"
| "spontaneous (TimerFire t) = True"
| "spontaneous (AnimationFrame freq) = True"
| "spontaneous ev = False"

text \<open>
  A browser in which the audio context runs and nothing throws; a session started by one
  click; two clicks before the first microphone request is answered.
\<close>

definition calm :: env where
  "calm = \<lparr>ctx_suspended = False, ctx_fails = False, start_throws = False\<rparr>"

definition start_session :: "(env \<times> event) list" where
  "start_session = [(calm, ClickRecord), (calm, Settle 0 True), (calm, EngineStart 0)]"

definition listening :: state where
  "listening = run start_session loaded"

definition double_click :: "(env \<times> event) list" where
  "double_click =
     [(calm, ClickRecord), (calm, ClickRecord), (calm, Settle 0 True), (calm, Settle 0 True)]"

text \<open>
  The session after the engine reported a final "hello" together with an interim "wor";
  and three results in the order engines report speech: an interim "hel", then the final
  "hello ", then an interim "wor".
\<close>

definition heard :: state where
  "heard = step calm (EngineResult 0 [(''hello'', True), (''wor'', False)]) listening"

definition three_results :: "(env \<times> event) list" where
  "three_results =
     [(calm, EngineResult 0 [(''hel'', False)]),
      (calm, EngineResult 0 [(''hello '', True)]),
      (calm, EngineResult 0 [(''wor'', False)])]"

definition two_finals :: "(env \<times> event) list" where
  "two_finals =
     [(calm, EngineResult 0 [(''hello '', True)]),
      (calm, EngineResult 0 [(''world'', True)])]"


text \<open>The engine signals, a timer and a frame that may follow an engine error.\<close>

definition aftermath :: "(env \<times> event) list" where
  "aftermath = [(calm, EngineEnd 0), (calm, TimerFire 0), (calm, AnimationFrame loudest)]"

text \<open>Not listening, and the record button not marked.\<close>

definition idle :: "state \<Rightarrow> bool" where
  "idle s = (\<not> isListening s \<and> \<not> recording_selected s)"

text \<open>
  Every engine other than the one \<open>recognition\<close> refers to has been stopped, \<open>recognition\<close>
  refers to an engine that exists, and while an \<^verbatim>\<open>initializeRecognition\<close> is suspended
  it is the only one and \<open>recognition\<close> is \<^verbatim>\<open>null\<close>.
\<close>

definition engines_accounted :: "state \<Rightarrow> bool" where
  "engines_accounted s =
     ((\<forall>r < length (engines s). recognition s \<noteq> Some r \<longrightarrow> engines s ! r = Stopped) \<and>
      (\<forall>r. recognition s = Some r \<longrightarrow> r < length (engines s)) \<and>
      (InitAwaitAudio \<in> set (tasks s) \<longrightarrow>
         recognition s = None \<and> count_list (tasks s) InitAwaitAudio \<le> 1))"

text \<open>
  A click that begins an \<^verbatim>\<open>initializeRecognition\<close> while an earlier one is still suspended;
  and a run of events without such a click.
\<close>

definition overlapping :: "state \<Rightarrow> event \<Rightarrow> bool" where
  "overlapping s ev = (ev = ClickRecord \<and> \<not> isListening s \<and> InitAwaitAudio \<in> set (tasks s))"

fun orderly :: "(env \<times> event) list \<Rightarrow> state \<Rightarrow> bool" where
  "orderly [] s = True"
| "orderly ((e, ev) # evs) s = (\<not> overlapping s ev \<and> orderly evs (step e ev s))"


section \<open>The band values of a frame\<close>

lemma normalize_bounds: "0 \<le> normalize b \<and> normalize b \<le> 1"
proof -
  have "unat b < 2 ^ 8" using unsigned_less [of b] by simp
  then have "unat b \<le> 255" by simp
  then have "real (unat b) \<le> real 255" by (rule of_nat_mono)
  then show ?thesis by (simp add: normalize_def del: of_nat_unat)
qed

lemma energy_bounds: "0 \<le> energy bs \<and> energy bs \<le> real (length bs)"
proof (induction bs)
  case Nil
  show ?case by (simp add: energy_def)
next
  case (Cons b bs)
  with normalize_bounds [of b] show ?case by (simp add: energy_def)
qed

text \<open>
  The loop adds the bins below \<open>bassRange\<close> to the first sum, those from there up to
  \<open>midRange\<close> to the second and the others to the third.
\<close>

lemma band_sums_split:
  "bR \<le> mR \<Longrightarrow>
   band_sums bR mR i d (a, b, c) =
     (a + energy (take (bR - i) d),
      b + energy (drop (bR - i) (take (mR - i) d)),
      c + energy (drop (mR - i) d))"
proof (induction d arbitrary: i a b c)
  case Nil
  show ?case by (simp add: energy_def)
next
  case (Cons x xs)
  show ?case
  proof (cases "i < bR")
    case True
    then have "bR - i = Suc (bR - Suc i)" "mR - i = Suc (mR - Suc i)"
      using Cons.prems by arith+
    with True Cons.IH [OF Cons.prems] show ?thesis
      by (simp add: energy_def Let_def)
  next
    case False
    show ?thesis
    proof (cases "i < mR")
      case True
      then have "mR - i = Suc (mR - Suc i)" by arith
      moreover have "bR - i = 0" "bR - Suc i = 0" using False by arith+
      ultimately show ?thesis using True False Cons.IH [OF Cons.prems]
        by (simp add: energy_def Let_def)
    next
      case False
      then have "mR - i = 0" "mR - Suc i = 0" "bR - i = 0" "bR - Suc i = 0"
        using \<open>\<not> i < bR\<close> by arith+
      then show ?thesis using False \<open>\<not> i < bR\<close> Cons.IH [OF Cons.prems]
        by (simp add: energy_def Let_def)
    qed
  qed
qed

lemma average_bounds: "0 \<le> average bs \<and> average bs \<le> 1"
proof (cases "bs = []")
  case True
  then show ?thesis by (simp add: average_def)
next
  case False
  then have "0 < real (length bs)" by simp
  with energy_bounds [of bs] show ?thesis
    by (simp add: average_def divide_le_eq)
qed

lemma average_replicate_255: "0 < n \<Longrightarrow> average (replicate n 255) = 1"
  by (simp add: average_def energy_def normalize_def sum_list_replicate)

lemma average_replicate_0: "average (replicate n 0) = 0"
  by (simp add: average_def energy_def normalize_def sum_list_replicate)

text \<open>
  \<^verbatim>\<open>Math.floor(dataArray.length * 0.1)\<close> and \<^verbatim>\<open>Math.floor(dataArray.length * 0.4)\<close> are a tenth
  and four tenths of the number of bins, rounded down. With fewer than 10 bins the bass range
  is empty and the script divides by zero; the analyser's buffer has 1024 bins, and the
  properties below are stated for buffers of at least 10.
\<close>

lemma bassRange_div: "bassRange d = length d div 10"
proof -
  have "real (length d) * 0.1 = real (length d) / real 10" by simp
  then have "\<lfloor>real (length d) * 0.1\<rfloor> = int (length d div 10)"
    by (simp only: floor_divide_of_nat_eq)
  then show ?thesis by (simp add: bassRange_def)
qed

lemma midRange_div: "midRange d = (4 * length d) div 10"
proof -
  have "real (length d) * 0.4 = real (4 * length d) / real 10" by simp
  then have "\<lfloor>real (length d) * 0.4\<rfloor> = int ((4 * length d) div 10)"
    by (simp only: floor_divide_of_nat_eq)
  then show ?thesis by (simp add: midRange_def)
qed

lemma ranges_ordered:
  assumes "10 \<le> length d"
  shows "0 < bassRange d \<and> bassRange d < midRange d \<and> midRange d < length d"
proof -
  have "0 < length d div 10" using assms by (simp add: div_greater_zero_iff)
  moreover have "length d div 10 < (4 * length d) div 10" using assms by arith
  moreover have "(4 * length d) div 10 < length d" using assms by arith
  ultimately show ?thesis unfolding bassRange_div midRange_div by blast
qed

lemma ranges_1024: "length d = 1024 \<Longrightarrow> bassRange d = 102 \<and> midRange d = 409"
  by (simp add: bassRange_div midRange_div)

lemma bandAverages_split:
  assumes "10 \<le> length d"
  shows "bandAverages d =
           ((average (take (bassRange d) d)) powr 1.2 * 1.2,
            average (drop (bassRange d) (take (midRange d) d)) * 0.8,
            average (drop (midRange d) d) * 0.7)"
proof -
  let ?b = "bassRange d" and ?m = "midRange d"
  from ranges_ordered [OF assms] have ord: "0 < ?b" "?b < ?m" "?m < length d" by simp_all
  then have "?b \<le> ?m" by simp
  from band_sums_split [OF this, of 0 d 0 0 0]
  have "band_sums ?b ?m 0 d (0, 0, 0) =
          (energy (take ?b d), energy (drop ?b (take ?m d)), energy (drop ?m d))"
    by simp
  moreover have "length (take ?b d) = ?b" "length (drop ?b (take ?m d)) = ?m - ?b"
    "length (drop ?m d) = length d - ?m"
    using ord by simp_all
  ultimately show ?thesis
    by (simp add: bandAverages_def average_def)
qed

lemma bandAverages_loudest: "bandAverages loudest = (1.2, 0.8, 0.7)"
proof -
  have l: "length loudest = 1024" by (simp add: loudest_def)
  then have h: "10 \<le> length loudest" by simp
  from bandAverages_split [OF h] ranges_1024 [OF l] show ?thesis
    by (simp add: loudest_def average_replicate_255 min_def)
qed

lemma bandAverages_silence: "bandAverages silence = (0, 0, 0)"
proof -
  have l: "length silence = 1024" by (simp add: silence_def)
  then have h: "10 \<le> length silence" by simp
  from bandAverages_split [OF h] ranges_1024 [OF l] show ?thesis
    by (simp add: silence_def average_replicate_0 min_def)
qed


text \<open>
  C2, as stated, fails: with every bin at 255 the bass value of the frame is 1.2, because
  \<^verbatim>\<open>bassAvg\<close> is the shaped average times the gain 1.2.
\<close>

theorem bass_above_one_counterexample:
  "length loudest = 1024 \<and> bassAvg loudest = 1.2 \<and> \<not> bassAvg loudest \<le> 1"
  by (simp add: bassAvg_def bandAverages_loudest) (simp add: loudest_def)

text \<open>
  C2, amended: for every frequency buffer of bytes (of at least 10 bins), the three band
  values of the frame are bounded by their gains: \<^verbatim>\<open>bassAvg\<close> lies in [0, 1.2],
  \<^verbatim>\<open>midAvg\<close> in [0, 0.8] and \<^verbatim>\<open>trebleAvg\<close> in [0, 0.7]. (The averages they are computed
  from lie in [0, 1], lemma \<open>average_bounds\<close>.)
\<close>

theorem band_values_bounded:
  assumes "10 \<le> length d"
  shows "0 \<le> bassAvg d \<and> bassAvg d \<le> 1.2 \<and>
         0 \<le> midAvg d \<and> midAvg d \<le> 0.8 \<and>
         0 \<le> trebleAvg d \<and> trebleAvg d \<le> 0.7"
proof -
  let ?b = "average (take (bassRange d) d)"
  have "?b powr 1.2 \<le> 1 powr 1.2"
    using average_bounds [of "take (bassRange d) d"] by (intro powr_mono2) simp_all
  then have b: "?b powr 1.2 \<le> 1" by simp
  have b0: "0 \<le> ?b powr 1.2" by simp
  show ?thesis
    using b b0 average_bounds [of "drop (bassRange d) (take (midRange d) d)"]
      average_bounds [of "drop (midRange d) d"]
    by (simp add: bassAvg_def midAvg_def trebleAvg_def bandAverages_split [OF assms])
qed

theorem band_values_bounded_witness:
  "10 \<le> length loudest \<and>
   0 \<le> bassAvg loudest \<and> bassAvg loudest \<le> 1.2 \<and>
   0 \<le> midAvg loudest \<and> midAvg loudest \<le> 0.8 \<and>
   0 \<le> trebleAvg loudest \<and> trebleAvg loudest \<le> 0.7"
proof -
  have h: "10 \<le> length loudest" by (simp add: loudest_def)
  from band_values_bounded [OF h] h show ?thesis by simp
qed

text \<open>
  C6, as stated, fails: the specification's band values give bass 1 for the buffer with every
  bin at 255, the frame computes 1.2.
\<close>

theorem bass_gain_counterexample:
  "spec_bandEnergy loudest = (1, 0.8, 0.7) \<and> bandAverages loudest = (1.2, 0.8, 0.7) \<and>
   bandAverages loudest \<noteq> spec_bandEnergy loudest"
proof -
  have "spec_bandEnergy loudest = (1, 0.8, 0.7)"
    by (simp add: spec_bandEnergy_def loudest_def average_replicate_255 min_def)
  then show ?thesis by (simp add: bandAverages_loudest)
qed

text \<open>
  C6, amended: each frame, the bins of the buffer (at least 10) are split into three
  contiguous, non-empty ranges: the first tenth of the bins, rounded down, as bass, the bins
  from there up to four tenths, rounded down, as mid and the remaining bins as treble (bins
  0 to 101, 102 to 408 and 409 to 1023 of the analyser's 1024, lemma \<open>ranges_1024\<close>); each
  bin is normalized by 255 and each range averaged; the bass average is raised to the power
  1.2 and then scaled by the gain 1.2, the mid and treble averages are scaled by the gains
  0.8 and 0.7.
\<close>

theorem band_values_partition:
  assumes "10 \<le> length d"
  shows "bassRange d = length d div 10 \<and> midRange d = (4 * length d) div 10 \<and>
         0 < bassRange d \<and> bassRange d < midRange d \<and> midRange d < length d \<and>
         take (bassRange d) d @ drop (bassRange d) (take (midRange d) d) @ drop (midRange d) d = d \<and>
         bassAvg d = (average (take (bassRange d) d)) powr 1.2 * 1.2 \<and>
         midAvg d = average (drop (bassRange d) (take (midRange d) d)) * 0.8 \<and>
         trebleAvg d = average (drop (midRange d) d) * 0.7"
proof -
  let ?b = "bassRange d" and ?m = "midRange d"
  from ranges_ordered [OF assms] have ord: "0 < ?b" "?b < ?m" "?m < length d" by simp_all
  have low: "take ?b d @ drop ?b (take ?m d) = take ?m d"
    using append_take_drop_id [of ?b "take ?m d"] ord by (simp add: min_def)
  have "(take ?b d @ drop ?b (take ?m d)) @ drop ?m d = d"
    unfolding low by (rule append_take_drop_id)
  then have "take ?b d @ drop ?b (take ?m d) @ drop ?m d = d"
    by (simp only: append_assoc)
  then show ?thesis
    using ord bassRange_div [of d] midRange_div [of d]
    by (simp add: bassAvg_def midAvg_def trebleAvg_def bandAverages_split [OF assms])
qed

theorem band_values_partition_witness:
  "10 \<le> length silence \<and>
   bassRange silence = length silence div 10 \<and> midRange silence = (4 * length silence) div 10 \<and>
   0 < bassRange silence \<and> bassRange silence < midRange silence \<and>
   midRange silence < length silence \<and>
   take (bassRange silence) silence @
     drop (bassRange silence) (take (midRange silence) silence) @
     drop (midRange silence) silence = silence \<and>
   bassAvg silence = (average (take (bassRange silence) silence)) powr 1.2 * 1.2 \<and>
   midAvg silence = average (drop (bassRange silence) (take (midRange silence) silence)) * 0.8 \<and>
   trebleAvg silence = average (drop (midRange silence) silence) * 0.7"
proof -
  have h: "10 \<le> length silence" by (simp add: silence_def)
  from band_values_partition [OF h] h show ?thesis by blast
qed

section \<open>Smoothing of the visual parameters\<close>

lemma getByteFrequencyData_idem:
  "getByteFrequencyData freq (getByteFrequencyData freq arr) = getByteFrequencyData freq arr"
  by (cases "length arr \<le> length freq") (simp_all add: getByteFrequencyData_def)

lemma length_getByteFrequencyData:
  "length (getByteFrequencyData freq arr) = length arr"
  by (simp add: getByteFrequencyData_def)

lemma animate_guarded:
  assumes "visualizer s = Some v" "analyser s" "isListening s"
  shows "animate freq s =
           s\<lparr>dataArray := getByteFrequencyData freq (dataArray s),
             visualizer := Some (update_visualizer (getByteFrequencyData freq (dataArray s)) v)\<rparr>"
  using assms by (simp add: animate_def Let_def)

lemma pulse_step:
  "u_pulseIntensity (update_visualizer d v) - targetPulse d =
     0.85 * (u_pulseIntensity v - targetPulse d)"
  by (simp add: update_visualizer_def Let_def field_simps)

lemma shrink: "b = 0.85 * a \<Longrightarrow> 0 \<le> a \<Longrightarrow> b \<le> (a::real)"
  by (simp add: field_simps)

lemma frames_pulse:
  assumes "visualizer s = Some v" "analyser s" "isListening s"
  shows "\<exists>v'. visualizer ((animate freq ^^ n) s) = Some v' \<and>
              analyser ((animate freq ^^ n) s) \<and> isListening ((animate freq ^^ n) s) \<and>
              getByteFrequencyData freq (dataArray ((animate freq ^^ n) s)) =
                getByteFrequencyData freq (dataArray s) \<and>
              u_pulseIntensity v' - targetPulse (getByteFrequencyData freq (dataArray s)) =
                0.85 ^ n * (u_pulseIntensity v - targetPulse (getByteFrequencyData freq (dataArray s)))"
proof (induction n)
  case 0
  show ?case using assms by simp
next
  case (Suc n)
  let ?d = "getByteFrequencyData freq (dataArray s)"
  let ?s = "(animate freq ^^ n) s"
  from Suc obtain v' where v': "visualizer ?s = Some v'" "analyser ?s" "isListening ?s"
    "getByteFrequencyData freq (dataArray ?s) = ?d"
    "u_pulseIntensity v' - targetPulse ?d = 0.85 ^ n * (u_pulseIntensity v - targetPulse ?d)"
    by blast
  have "animate freq ?s = ?s\<lparr>dataArray := ?d, visualizer := Some (update_visualizer ?d v')\<rparr>"
    using animate_guarded [OF v'(1-3), of freq] v'(4) by simp
  then show ?case
    using v' pulse_step [of ?d v'] by (simp add: getByteFrequencyData_idem)
qed

lemmas session_defs = loaded_def script_start_def createOrUpdateDisplay_def calm_def
    initializeRecognition_begin_def release_recognition_def initAudio_begin_def continue_task_def
    initializeRecognition_finish_def initAudio_finish_def new_recognition_def startRecognition_def
    startRecognition_resume_def startRecognition_start_def updateRecordButtonState_def onstart_def
    stopRecognition_def onend_def onerror_def recording_selected_def restart_callback_def
    setTimeout_def clearTimeout_def

lemma listening_fields:
  "visualizer listening = Some new_mesh" "analyser listening" "isListening listening"
  "dataArray listening = replicate 1024 0"
  by (simp_all add: listening_def start_session_def session_defs)

text \<open>
  C7: in a frame that updates the visualizer, \<^verbatim>\<open>pulseIntensity\<close> moves from its value \<open>p\<close> to
  \<open>p + (target - p) * 0.15\<close>, where \<open>target = bassAvg powr 1.2 * 3.0 + midAvg * 1.2\<close>; when
  the analyser delivers the same magnitudes frame after frame, the distance of
  \<^verbatim>\<open>pulseIntensity\<close> to the target after \<open>n\<close> frames is \<open>0.85 ^ n\<close> times the initial distance,
  and it never grows from one frame to the next.
\<close>

theorem pulse_converges_geometrically:
  assumes "visualizer s = Some v" and "analyser s" and "isListening s"
  shows "(let d = getByteFrequencyData freq (dataArray s);
              target = (bassAvg d) powr 1.2 * 3.0 + midAvg d * 1.2;
              p = u_pulseIntensity v
          in pulseIntensity (animate freq s) = Some (p + (target - p) * 0.15) \<and>
             (\<exists>q. pulseIntensity ((animate freq ^^ n) s) = Some q \<and>
                  \<bar>q - target\<bar> = 0.85 ^ n * \<bar>p - target\<bar>) \<and>
             (\<exists>q r. pulseIntensity ((animate freq ^^ n) s) = Some q \<and>
                  pulseIntensity ((animate freq ^^ Suc n) s) = Some r \<and>
                  \<bar>r - target\<bar> \<le> \<bar>q - target\<bar>))"
proof -
  let ?d = "getByteFrequencyData freq (dataArray s)"
  let ?t = "targetPulse ?d"
  let ?p = "u_pulseIntensity v"
  have one: "pulseIntensity (animate freq s) = Some (?p + (?t - ?p) * 0.15)"
    using animate_guarded [OF assms, of freq]
    by (simp add: pulseIntensity_def update_visualizer_def Let_def)
  have dist: "\<exists>q. pulseIntensity ((animate freq ^^ k) s) = Some q \<and>
                  \<bar>q - ?t\<bar> = 0.85 ^ k * \<bar>?p - ?t\<bar>" for k
  proof -
    from frames_pulse [OF assms, where freq = freq and n = k] obtain v' where
      v': "visualizer ((animate freq ^^ k) s) = Some v'"
          "u_pulseIntensity v' - ?t = 0.85 ^ k * (?p - ?t)"
      by blast
    have "\<bar>u_pulseIntensity v' - ?t\<bar> = 0.85 ^ k * \<bar>?p - ?t\<bar>"
      by (simp add: v'(2) abs_mult)
    with v'(1) show ?thesis by (simp add: pulseIntensity_def)
  qed
  have mono: "\<exists>q r. pulseIntensity ((animate freq ^^ n) s) = Some q \<and>
                  pulseIntensity ((animate freq ^^ Suc n) s) = Some r \<and>
                  \<bar>r - ?t\<bar> \<le> \<bar>q - ?t\<bar>"
  proof -
    from dist [of n] obtain q where
      q: "pulseIntensity ((animate freq ^^ n) s) = Some q" "\<bar>q - ?t\<bar> = 0.85 ^ n * \<bar>?p - ?t\<bar>"
      by blast
    from dist [of "Suc n"] obtain r where
      r: "pulseIntensity ((animate freq ^^ Suc n) s) = Some r"
         "\<bar>r - ?t\<bar> = 0.85 ^ Suc n * \<bar>?p - ?t\<bar>"
      by blast
    have "\<bar>r - ?t\<bar> = 0.85 * \<bar>q - ?t\<bar>" using q(2) r(2) by simp
    moreover have "0 \<le> \<bar>q - ?t\<bar>" by simp
    ultimately have "\<bar>r - ?t\<bar> \<le> \<bar>q - ?t\<bar>" by (rule shrink)
    with q(1) r(1) show ?thesis by blast
  qed
  show ?thesis
    unfolding Let_def using one dist [of n] mono by (simp only: targetPulse_def)
qed

theorem pulse_converges_geometrically_witness:
  "visualizer listening = Some new_mesh \<and> analyser listening \<and> isListening listening \<and>
   (let d = getByteFrequencyData loudest (dataArray listening);
        target = (bassAvg d) powr 1.2 * 3.0 + midAvg d * 1.2;
        p = u_pulseIntensity new_mesh
    in pulseIntensity (animate loudest listening) = Some (p + (target - p) * 0.15) \<and>
       (\<exists>q. pulseIntensity ((animate loudest ^^ 3) listening) = Some q \<and>
            \<bar>q - target\<bar> = 0.85 ^ 3 * \<bar>p - target\<bar>) \<and>
       (\<exists>q r. pulseIntensity ((animate loudest ^^ 3) listening) = Some q \<and>
            pulseIntensity ((animate loudest ^^ Suc 3) listening) = Some r \<and>
            \<bar>r - target\<bar> \<le> \<bar>q - target\<bar>))"
proof -
  have h: "visualizer listening = Some new_mesh" "analyser listening" "isListening listening"
    by (rule listening_fields)+
  from pulse_converges_geometrically [OF h, where freq = loudest and n = 3] h
  show ?thesis by blast
qed

text \<open>
  C10: after every frame that updates the visualizer, whatever the magnitudes, the three
  components of its scale are equal.
\<close>

theorem scale_stays_uniform:
  assumes "visualizer s = Some v" and "analyser s" and "isListening s"
  shows "\<exists>v'. visualizer (animate freq s) = Some v' \<and>
              scale_x v' = scale_y v' \<and> scale_y v' = scale_z v'"
  using animate_guarded [OF assms, of freq] by (simp add: update_visualizer_def Let_def)

theorem scale_stays_uniform_witness:
  "visualizer listening = Some new_mesh \<and> analyser listening \<and> isListening listening \<and>
   (\<exists>v'. visualizer (animate loudest listening) = Some v' \<and>
         scale_x v' = scale_y v' \<and> scale_y v' = scale_z v')"
  using scale_stays_uniform [of listening new_mesh loudest] by (simp add: listening_fields)



section \<open>The recognition session\<close>

subsection \<open>What each operation leaves unchanged\<close>

lemma transcript_update [simp]:
  "transcript (s\<lparr>isListening := xisL0\<rparr>) = transcript s"
  "transcript (s\<lparr>restartTimeout := xres1\<rparr>) = transcript s"
  "transcript (s\<lparr>recognition := xrec2\<rparr>) = transcript s"
  "transcript (s\<lparr>audioContext := xaud3\<rparr>) = transcript s"
  "transcript (s\<lparr>audioSource := xaud4\<rparr>) = transcript s"
  "transcript (s\<lparr>analyser := xana5\<rparr>) = transcript s"
  "transcript (s\<lparr>dataArray := xdat6\<rparr>) = transcript s"
  "transcript (s\<lparr>visualizer := xvis7\<rparr>) = transcript s"
  "transcript (s\<lparr>engines := xeng8\<rparr>) = transcript s"
  "transcript (s\<lparr>timers := xtim9\<rparr>) = transcript s"
  "transcript (s\<lparr>next_timer := xnex10\<rparr>) = transcript s"
  "transcript (s\<lparr>tasks := xtas11\<rparr>) = transcript s"
  by (simp_all add: transcript_def)

lemma recording_selected_update [simp]:
  "recording_selected (s\<lparr>isListening := xisL0\<rparr>) = recording_selected s"
  "recording_selected (s\<lparr>restartTimeout := xres1\<rparr>) = recording_selected s"
  "recording_selected (s\<lparr>recognition := xrec2\<rparr>) = recording_selected s"
  "recording_selected (s\<lparr>audioContext := xaud3\<rparr>) = recording_selected s"
  "recording_selected (s\<lparr>audioSource := xaud4\<rparr>) = recording_selected s"
  "recording_selected (s\<lparr>analyser := xana5\<rparr>) = recording_selected s"
  "recording_selected (s\<lparr>dataArray := xdat6\<rparr>) = recording_selected s"
  "recording_selected (s\<lparr>visualizer := xvis7\<rparr>) = recording_selected s"
  "recording_selected (s\<lparr>engines := xeng8\<rparr>) = recording_selected s"
  "recording_selected (s\<lparr>timers := xtim9\<rparr>) = recording_selected s"
  "recording_selected (s\<lparr>next_timer := xnex10\<rparr>) = recording_selected s"
  "recording_selected (s\<lparr>tasks := xtas11\<rparr>) = recording_selected s"
  by (simp_all add: recording_selected_def)

lemma not_selected_after_clear [simp]:
  "\<not> recording_selected (updateRecordButtonState False s)"
  by (simp add: recording_selected_def updateRecordButtonState_def split: option.splits)

lemma onend_eq_onerror: "onend s = onerror s"
  by (simp add: onend_def onerror_def Let_def)

lemma onerror_fields [simp]:
  "timers (onerror s) = timers s" "restartTimeout (onerror s) = restartTimeout s"
  "engines (onerror s) = engines s" "tasks (onerror s) = tasks s"
  "recognition (onerror s) = recognition s" "next_timer (onerror s) = next_timer s"
  "\<not> isListening (onerror s)" "\<not> recording_selected (onerror s)"
  "transcript (onerror s) = transcript s"
  by (simp_all add: onerror_def) (simp_all add: updateRecordButtonState_def transcript_def split: option.splits)

lemma appendTranscript_fields [simp]:
  "timers (appendTranscript f i s) = timers s"
  "restartTimeout (appendTranscript f i s) = restartTimeout s"
  "engines (appendTranscript f i s) = engines s" "tasks (appendTranscript f i s) = tasks s"
  "isListening (appendTranscript f i s) = isListening s"
  "recording_selected (appendTranscript f i s) = recording_selected s"
  by (simp_all add: appendTranscript_def recording_selected_def Let_def split: option.splits)

lemma onresult_fields [simp]:
  "timers (onresult rs s) = timers s"
  "restartTimeout (onresult rs s) = restartTimeout s"
  "engines (onresult rs s) = engines s" "tasks (onresult rs s) = tasks s"
  "isListening (onresult rs s) = isListening s"
  "recording_selected (onresult rs s) = recording_selected s"
  by (simp_all add: onresult_def split: prod.splits)

lemma startRecognition_keeps [simp]:
  "timers (startRecognition e s) = timers s"
  "restartTimeout (startRecognition e s) = restartTimeout s"
  "transcript (startRecognition e s) = transcript s"
  "timers (startRecognition_resume e s) = timers s"
  "restartTimeout (startRecognition_resume e s) = restartTimeout s"
  "transcript (startRecognition_resume e s) = transcript s"
  "timers (startRecognition_start e s) = timers s"
  "restartTimeout (startRecognition_start e s) = restartTimeout s"
  "transcript (startRecognition_start e s) = transcript s"
  by (simp_all add: startRecognition_def startRecognition_resume_def startRecognition_start_def
        initAudio_begin_def updateRecordButtonState_def transcript_def split: option.splits)

lemma stopRecognition_keeps [simp]:
  "timers (stopRecognition s) = timers s"
  "restartTimeout (stopRecognition s) = restartTimeout s"
  "transcript (stopRecognition s) = transcript s"
  "tasks (stopRecognition s) = tasks s"
  "recognition (stopRecognition s) = recognition s"
  "\<not> isListening (stopRecognition s)"
  "\<not> recording_selected (stopRecognition s)"
  by (simp_all add: stopRecognition_def Let_def)
     (simp_all add: updateRecordButtonState_def transcript_def split: option.splits)

lemma initializeRecognition_begin_keeps [simp]:
  "timers (initializeRecognition_begin e s) = timers s"
  "restartTimeout (initializeRecognition_begin e s) = restartTimeout s"
  "transcript (initializeRecognition_begin e s) = transcript s"
  by (simp_all add: initializeRecognition_begin_def release_recognition_def initAudio_begin_def
        Let_def transcript_def split: option.splits)

lemma continue_task_keeps [simp]:
  "timers (continue_task e t b s) = timers s \<and>
   restartTimeout (continue_task e t b s) = restartTimeout s \<and>
   transcript (continue_task e t b s) = transcript s"
  by (cases t)
     (simp_all add: continue_task_def initializeRecognition_finish_def initAudio_finish_def
        new_recognition_def)

lemma onstart_keeps [simp]:
  "timers (onstart s) = timers s" "restartTimeout (onstart s) = restartTimeout s"
  "transcript (onstart s) = transcript s"
  by (simp_all add: onstart_def updateRecordButtonState_def transcript_def split: option.splits)

lemma animate_keeps [simp]:
  "timers (animate freq s) = timers s" "restartTimeout (animate freq s) = restartTimeout s"
  "transcript (animate freq s) = transcript s"
  by (simp_all add: animate_def Let_def transcript_def split: option.splits)

lemma createOrUpdateDisplay_keeps [simp]:
  "timers (createOrUpdateDisplay s) = timers s"
  "restartTimeout (createOrUpdateDisplay s) = restartTimeout s"
  by (simp_all add: createOrUpdateDisplay_def split: option.splits)

subsection \<open>No timer is ever added\<close>





lemma listening_eq:
  "listening =
     \<lparr>isListening = True, restartTimeout = None, recognition = Some 0, audioContext = True,
      audioSource = True, analyser = True, dataArray = replicate 1024 0,
      visualizer = Some new_mesh, container = Some \<lparr>recording = True, children = []\<rparr>,
      engines = [Started], timers = [], next_timer = 0, tasks = []\<rparr>"
  by (simp add: listening_def start_session_def session_defs)

text \<open>
  C3 fails on the code: in a listening session whose record button is marked as recording
  (the user's intent to record), the "ended" signal of the engine schedules no restart:
  afterwards no timer is pending and \<^verbatim>\<open>restartTimeout\<close> is still \<^verbatim>\<open>null\<close>.
\<close>

theorem ended_schedules_nothing:
  "isListening listening \<and> recording_selected listening \<and>
   timers (step calm (EngineEnd 0) listening) = [] \<and>
   restartTimeout (step calm (EngineEnd 0) listening) = None"
  by (simp add: listening_eq onend_eq_onerror) (simp add: recording_selected_def)

subsection \<open>After an error\<close>

lemma spontaneous_step:
  assumes "spontaneous ev" and "idle s"
  shows "idle (step e ev s) \<and> engines (step e ev s) = engines s \<and>
         tasks (step e ev s) = tasks s \<and> restartTimeout (step e ev s) = restartTimeout s \<and>
         set (timers (step e ev s)) \<subseteq> set (timers s)"
proof (cases ev)
  case (TimerFire t)
  have "recording_selected (s\<lparr>timers := ts\<rparr>) = recording_selected s" for ts
    by (simp add: recording_selected_def)
  with assms(2) show ?thesis
    by (auto simp: TimerFire idle_def restart_callback_def)
next
  case (AnimationFrame freq)
  with assms(2) show ?thesis
    by (simp add: idle_def animate_def split: option.splits)
qed (use assms in \<open>simp_all add: idle_def onend_eq_onerror\<close>)

lemma spontaneous_run:
  assumes "\<forall>x \<in> set evs. spontaneous (snd x)" and "idle s"
  shows "idle (run evs s) \<and> engines (run evs s) = engines s \<and>
         tasks (run evs s) = tasks s \<and> restartTimeout (run evs s) = restartTimeout s \<and>
         set (timers (run evs s)) \<subseteq> set (timers s)"
  using assms
proof (induction evs arbitrary: s)
  case Nil
  show ?case using Nil.prems by simp
next
  case (Cons x evs)
  obtain e ev where x: "x = (e, ev)" by (cases x)
  from Cons.prems have sp: "spontaneous ev" and rest: "\<forall>y \<in> set evs. spontaneous (snd y)"
    by (simp_all add: x)
  note st = spontaneous_step [OF sp Cons.prems(2), of e]
  from Cons.IH [OF rest, of "step e ev s"] st show ?case
    by (auto simp: x)
qed


text \<open>
  C4: the "error" signal schedules no restart (the pending timers and \<^verbatim>\<open>restartTimeout\<close> are
  as before, no engine is touched) and marks the session not listening; and through every
  run of engine signals other than "started", timers firing and animation frames that
  follows, so until a command of the user starts recognition again, the session stays not
  listening, no engine is started, no call is suspended and no timer is added.
\<close>

theorem error_schedules_no_restart:
  assumes "list_all (\<lambda>x. spontaneous (snd x)) evs"
  shows "timers (onerror s) = timers s \<and> restartTimeout (onerror s) = restartTimeout s \<and>
         engines (onerror s) = engines s \<and> \<not> isListening (onerror s) \<and>
         \<not> isListening (run evs (onerror s)) \<and>
         engines (run evs (onerror s)) = engines s \<and>
         tasks (run evs (onerror s)) = tasks s \<and>
         restartTimeout (run evs (onerror s)) = restartTimeout s \<and>
         set (timers (run evs (onerror s))) \<subseteq> set (timers s)"
proof -
  have sp: "\<forall>x \<in> set evs. spontaneous (snd x)"
    using assms by (simp add: list_all_iff)
  have "idle (onerror s)" by (simp add: idle_def)
  from spontaneous_run [OF sp this] show ?thesis by (simp add: idle_def)
qed

theorem error_schedules_no_restart_witness:
  "list_all (\<lambda>x. spontaneous (snd x)) aftermath \<and>
   timers (onerror listening) = timers listening \<and>
   restartTimeout (onerror listening) = restartTimeout listening \<and>
   engines (onerror listening) = engines listening \<and> \<not> isListening (onerror listening) \<and>
   \<not> isListening (run aftermath (onerror listening)) \<and>
   engines (run aftermath (onerror listening)) = engines listening \<and>
   tasks (run aftermath (onerror listening)) = tasks listening \<and>
   restartTimeout (run aftermath (onerror listening)) = restartTimeout listening \<and>
   set (timers (run aftermath (onerror listening))) \<subseteq> set (timers listening)"
proof -
  have h: "list_all (\<lambda>x. spontaneous (snd x)) aftermath" by (simp add: aftermath_def)
  from error_schedules_no_restart [OF h, of listening] h show ?thesis by blast
qed

subsection \<open>Stopping and the restart timer\<close>



subsection \<open>The transcript\<close>

text \<open>
  C9, as stated, fails: after a final "hello" and an interim "wor", a click on the record
  button of the listening session stops recognition and leaves both in the transcript.
\<close>

theorem stop_keeps_transcript_counterexample:
  "finalSegments heard = [''hello''] \<and> interimSegment heard = ''wor'' \<and>
   isListening heard \<and>
   finalSegments (step calm ClickRecord heard) = [''hello''] \<and>
   interimSegment (step calm ClickRecord heard) = ''wor'' \<and>
   finalSegments (stopRecognition heard) \<noteq> []"
  by (simp add: heard_def listening_eq onresult_def appendTranscript_def
        finalSegments_def interimSegment_def stopRecognition_def updateRecordButtonState_def)

text \<open>
  C9, amended: neither an explicit stop nor an automatic restart empties the transcript:
  \<^verbatim>\<open>stopRecognition\<close> (reached by a click on the record button or by the message
  \<^verbatim>\<open>stopListening\<close>), the "ended" signal, the restart callback of the timer and every
  continuation of a suspended \<^verbatim>\<open>startRecognition\<close> leave the final nodes and the interim
  node of \<^verbatim>\<open>#voxdeck-text\<close> as they are.
\<close>

theorem stop_and_restart_keep_transcript:
  "transcript (stopRecognition s) = transcript s \<and>
   transcript (step e ClickRecord s) = transcript s \<and>
   transcript (step e MsgStopListening s) = transcript s \<and>
   transcript (restart_callback e s) = transcript s \<and>
   transcript (step e (TimerFire t) s) = transcript s \<and>
   transcript (step e (Settle k fulfilled) s) = transcript s \<and>
   transcript (step e (EngineEnd r) s) = transcript s"
proof -
  have "transcript (s'\<lparr>timers := ts\<rparr>) = transcript s'" for s' ts
    by (simp add: transcript_def)
  moreover have "transcript (s'\<lparr>tasks := ts\<rparr>) = transcript s'" for s' ts
    by (simp add: transcript_def)
  ultimately show ?thesis
    by (simp add: restart_callback_def onend_eq_onerror)
qed

text \<open>
  The scenario of C8 holds: two final fragments "hello " and "world", no interim between
  them, show as "hello world".
\<close>

lemma two_finals_view:
  "transcript_view (run two_finals listening) = ''hello world''"
  by (simp add: two_finals_def listening_eq onresult_def appendTranscript_def
        transcript_view_def)

text \<open>
  C8 fails on the code: \<^verbatim>\<open>appendTranscript\<close> appends a final node at the end of
  \<^verbatim>\<open>#voxdeck-text\<close> but rewrites the interim node where it stands, so the interim node stays
  in front of every final node appended after it was created. After an interim "hel", the
  final "hello " and a new interim "wor", the element shows "worhello ", not the final
  segments followed by the interim fragment.
\<close>

theorem interim_before_finals:
  "finalSegments (run three_results listening) = [''hello ''] \<and>
   interimSegment (run three_results listening) = ''wor'' \<and>
   transcript_view (run three_results listening) = ''worhello '' \<and>
   transcript_view (run three_results listening) \<noteq>
     concat (finalSegments (run three_results listening)) @
       interimSegment (run three_results listening)"
  by (simp add: three_results_def listening_eq onresult_def appendTranscript_def
        finalSegments_def interimSegment_def transcript_view_def)

subsection \<open>One engine at a time\<close>

text \<open>
  As long as no click begins an \<^verbatim>\<open>initializeRecognition\<close> while an earlier one is still
  waiting for the microphone, every engine that is not stopped is the one \<open>recognition\<close>
  refers to.
\<close>

lemma accounted_start:
  "engines_accounted s \<Longrightarrow> engines_accounted (startRecognition_start e s)"
  by (auto simp: engines_accounted_def startRecognition_start_def updateRecordButtonState_def
        nth_list_update split: option.splits)

lemma accounted_resume:
  "engines_accounted s \<Longrightarrow> engines_accounted (startRecognition_resume e s)"
  using accounted_start [of s e]
  by (auto simp: startRecognition_resume_def engines_accounted_def)

lemma accounted_startRecognition:
  "engines_accounted s \<Longrightarrow> engines_accounted (startRecognition e s)"
  using accounted_resume [of s e]
  by (auto simp: startRecognition_def initAudio_begin_def engines_accounted_def)

lemma accounted_stop:
  "engines_accounted s \<Longrightarrow> engines_accounted (stopRecognition s)"
  by (auto simp: engines_accounted_def stopRecognition_def updateRecordButtonState_def Let_def
        nth_list_update split: option.splits)

lemma accounted_begin:
  assumes "engines_accounted s" and "InitAwaitAudio \<notin> set (tasks s)"
  shows "engines_accounted (initializeRecognition_begin e s)"
  using assms
  by (auto simp: engines_accounted_def initializeRecognition_begin_def release_recognition_def
        initAudio_begin_def Let_def nth_list_update split: option.splits)

lemma count_list_remove:
  assumes "k < length ts" and "ts ! k = x" and "count_list ts x \<le> 1"
  shows "x \<notin> set (take k ts @ drop (Suc k) ts)"
proof -
  have "ts = take k ts @ x # drop (Suc k) ts"
    by (metis assms(1,2) id_take_nth_drop)
  then have "count_list ts x = count_list (take k ts) x + 1 + count_list (drop (Suc k) ts) x"
    by (metis count_list_append count_list.simps(2) add.assoc add.commute)
  with assms(3) have "count_list (take k ts) x = 0" "count_list (drop (Suc k) ts) x = 0"
    by simp_all
  then show ?thesis by (simp add: count_list_0_iff)
qed

lemma set_remove_subset: "set (take k ts @ drop (Suc k) ts) \<subseteq> set ts"
  by (auto dest: in_set_takeD in_set_dropD)

lemma count_list_remove_le: "count_list (take k ts @ drop (Suc k) ts) x \<le> count_list ts x"
proof -
  have "count_list (take k ts) x + count_list (drop k ts) x = count_list ts x"
    by (metis append_take_drop_id count_list_append)
  moreover have "count_list (drop (Suc k) ts) x \<le> count_list (drop k ts) x"
  proof (cases "k < length ts")
    case True
    then have "drop k ts = ts ! k # drop (Suc k) ts" by (simp add: Cons_nth_drop_Suc)
    then show ?thesis by simp
  next
    case False
    then show ?thesis by simp
  qed
  ultimately show ?thesis by simp
qed

lemma accounted_settle:
  assumes "engines_accounted s"
  shows "engines_accounted (step e (Settle k b) s)"
proof (cases "k < length (tasks s)")
  case False
  with assms show ?thesis by simp
next
  case True
  let ?s = "s\<lparr>tasks := take k (tasks s) @ drop (Suc k) (tasks s)\<rparr>"
  have acc: "engines_accounted ?s"
    using assms set_remove_subset [of k "tasks s"]
      count_list_remove_le [of k "tasks s" InitAwaitAudio]
    by (auto simp: engines_accounted_def)
  show ?thesis
  proof (cases "tasks s ! k")
    case InitAwaitAudio
    then have mem: "InitAwaitAudio \<in> set (tasks s)" using True by (metis nth_mem)
    with assms have none: "recognition s = None" and one: "count_list (tasks s) InitAwaitAudio \<le> 1"
      by (simp_all add: engines_accounted_def)
    have gone: "InitAwaitAudio \<notin> set (tasks ?s)"
      using count_list_remove [OF True InitAwaitAudio one] by simp
    have "engines_accounted (new_recognition (?s\<lparr>audioSource := True\<rparr>))"
      using assms none gone
      by (auto simp: engines_accounted_def new_recognition_def nth_append)
    then show ?thesis
      using True InitAwaitAudio acc accounted_startRecognition
      by (simp add: continue_task_def initializeRecognition_finish_def initAudio_finish_def)
  next
    case StartAwaitAudio
    have "engines_accounted (?s\<lparr>audioSource := True\<rparr>)"
      using acc by (simp add: engines_accounted_def)
    then show ?thesis
      using True StartAwaitAudio acc accounted_resume
      by (simp add: continue_task_def initAudio_finish_def)
  next
    case StartAwaitResume
    then show ?thesis
      using True acc accounted_start by (simp add: continue_task_def)
  qed
qed

lemma accounted_step:
  assumes "engines_accounted s" and "\<not> overlapping s ev"
  shows "engines_accounted (step e ev s)"
proof (cases ev)
  case ClickRecord
  with assms accounted_stop [of s] accounted_begin [of s e] show ?thesis
    by (auto simp: overlapping_def)
next
  case ClickClose
  with assms accounted_stop [of s] show ?thesis by (auto simp: engines_accounted_def)
next
  case MsgStartListening
  with assms accounted_startRecognition show ?thesis by simp
next
  case MsgStopListening
  with assms accounted_stop show ?thesis by simp
next
  case MsgUpdateDisplay
  with assms show ?thesis
    by (auto simp: engines_accounted_def createOrUpdateDisplay_def split: option.splits)
next
  case (Settle k b)
  with assms accounted_settle show ?thesis by simp
next
  case (EngineStart r)
  with assms show ?thesis
    by (auto simp: engines_accounted_def onstart_def updateRecordButtonState_def split: option.splits)
next
  case (EngineEnd r)
  with assms show ?thesis
    by (auto simp: engines_accounted_def onend_eq_onerror onerror_def updateRecordButtonState_def
          split: option.splits)
next
  case (EngineError r)
  with assms show ?thesis
    by (auto simp: engines_accounted_def onerror_def updateRecordButtonState_def split: option.splits)
next
  case (EngineResult r rs)
  with assms show ?thesis
    by (auto simp: engines_accounted_def onresult_def appendTranscript_def Let_def
          split: option.splits prod.splits)
next
  case (TimerFire t)
  have "engines_accounted (s\<lparr>timers := ts\<rparr>)" for ts
    using assms(1) by (simp add: engines_accounted_def)
  with TimerFire assms accounted_startRecognition show ?thesis
    by (simp add: restart_callback_def)
next
  case (AnimationFrame freq)
  with assms show ?thesis
    by (auto simp: engines_accounted_def animate_def Let_def split: option.splits)
qed

lemma accounted_run:
  "engines_accounted s \<Longrightarrow> orderly evs s \<Longrightarrow> engines_accounted (run evs s)"
proof (induction evs arbitrary: s)
  case Nil
  then show ?case by simp
next
  case (Cons x evs)
  obtain e ev where x: "x = (e, ev)" by (cases x)
  from Cons.prems have "engines_accounted (step e ev s)" "orderly evs (step e ev s)"
    using accounted_step by (simp_all add: x)
  with Cons.IH show ?case by (simp add: x)
qed

lemma accounted_one_live:
  assumes "engines_accounted s" and "r \<in> set (live_engines s)"
  shows "recognition s = Some r"
  using assms by (auto simp: engines_accounted_def live_engines_def)

lemma one_engine_without_overlap:
  assumes "orderly evs loaded"
  shows "set (live_engines (run evs loaded)) \<subseteq> set_option (recognition (run evs loaded))"
proof -
  have "engines_accounted loaded"
    by (simp add: engines_accounted_def loaded_def script_start_def createOrUpdateDisplay_def)
  from accounted_run [OF this assms] show ?thesis
    by (auto dest: accounted_one_live)
qed


lemma orderly_start_session: "orderly start_session loaded \<and> \<not> orderly double_click loaded"
  by (simp add: start_session_def double_click_def overlapping_def session_defs)

text \<open>
  C1 fails on the code: \<^verbatim>\<open>initializeRecognition\<close> stops and releases the engine it holds
  before \<^verbatim>\<open>await initAudio()\<close> and constructs the new one after it. A second click on the
  record button while the first call waits for the microphone finds \<^verbatim>\<open>recognition\<close> still
  \<^verbatim>\<open>null\<close>; both calls construct and start an engine, and the second assignment drops the
  first engine without stopping it: two engines are live.
\<close>

theorem overlapping_starts_two_engines:
  "engines (run double_click loaded) = [Started, Started] \<and>
   recognition (run double_click loaded) = Some 1 \<and>
   live_engines (run double_click loaded) = [0, 1]"
  by (simp add: double_click_def session_defs live_engines_def upt_rec)


end
